theory Spec2Isabelle
  imports Main "HOL-Library.AList" "HOL-Library.Sublist"
begin

section \<open>Strings\<close>

text \<open>
  A JavaScript string is modelled as a list of code units, and a HOL character stands for
  a code unit below 256. Of these, \<^verbatim>\<open>String.prototype.trim\<close> strips TAB, LF, VT, FF,
  CR, SPACE and the no-break space U+00A0 from both ends.
\<close>

definition isWhiteSpace :: "char \<Rightarrow> bool" where
  "isWhiteSpace c \<longleftrightarrow> c \<in> set [CHR 0x09, CHR 0x0A, CHR 0x0B, CHR 0x0C, CHR 0x0D, CHR 0x20, CHR 0xA0]"

definition trim :: "string \<Rightarrow> string" where
  "trim s = rev (dropWhile isWhiteSpace (rev (dropWhile isWhiteSpace s)))"

text \<open>\<^verbatim>\<open>s.startsWith(p)\<close> and \<^verbatim>\<open>s.endsWith(p)\<close>.\<close>

definition startsWith :: "string \<Rightarrow> string \<Rightarrow> bool" where
  "startsWith s p \<longleftrightarrow> prefix p s"

definition endsWith :: "string \<Rightarrow> string \<Rightarrow> bool" where
  "endsWith s p \<longleftrightarrow> suffix p s"

text \<open>
  \<^verbatim>\<open>s.split(c)\<close> for a one-character separator: the pieces between the separators, in
  order; the list is never empty, and an empty string splits into one empty piece.
\<close>

fun split :: "char \<Rightarrow> string \<Rightarrow> string list" where
  "split c [] = [[]]"
| "split c (x # xs) =
     (if x = c then [] # split c xs
      else (case split c xs of [] \<Rightarrow> [[x]] | p # ps \<Rightarrow> (x # p) # ps))"

text \<open>
  \<^verbatim>\<open>randomUUID()\<close> of \<^verbatim>\<open>node:crypto\<close>, as a function of the 128-bit number it draws: 32
  lower-case hexadecimal digits, most significant first, grouped 8-4-4-4-12 by hyphens.
\<close>

definition hexDigit :: "nat \<Rightarrow> char" where
  "hexDigit d = ''0123456789abcdef'' ! (d mod 16)"

fun hex :: "nat \<Rightarrow> nat \<Rightarrow> string" where
  "hex 0 n = []"
| "hex (Suc l) n = hex l (n div 16) @ [hexDigit n]"

definition randomUUID :: "nat \<Rightarrow> string" where
  "randomUUID n =
     (let d = hex 32 n
      in take 8 d @ ''-'' @ take 4 (drop 8 d) @ ''-'' @ take 4 (drop 12 d) @ ''-'' @
         take 4 (drop 16 d) @ ''-'' @ drop 20 d)"

section \<open>Path normalisation\<close>

text \<open>
  \<^verbatim>\<open>normalizeHttpPath\<close> of \<^verbatim>\<open>index.ts\<close>. The \<^verbatim>\<open>throw new Error("HTTP path cannot be empty")\<close>
  is the value \<open>Inl EmptyHttpPath\<close>; \<^verbatim>\<open>slice(0, -1)\<close> drops the last code unit.
\<close>

datatype error = EmptyHttpPath

definition normalizeHttpPath :: "string \<Rightarrow> error + string" where
  "normalizeHttpPath v =
     (let trimmed = trim v in
      if trimmed = [] then Inl EmptyHttpPath
      else
        let withLeadingSlash = (if startsWith trimmed ''/'' then trimmed else ''/'' @ trimmed) in
        Inr (if endsWith withLeadingSlash ''/'' \<and> withLeadingSlash \<noteq> ''/''
             then butlast withLeadingSlash
             else withLeadingSlash))"

section \<open>The gateway's data\<close>

text \<open>
  The model follows \<^verbatim>\<open>startStreamableHttpServer\<close> of \<^verbatim>\<open>index.ts\<close> in its later revision, the
  one with the resource-download branch; the earlier revision is the same handler without
  that branch and without the calls into the resource manager.

  A \<^verbatim>\<open>Server\<close> object is known by its identity, a number: \<^verbatim>\<open>createMcpServer()\<close> returns the
  next unused one. Of a \<^verbatim>\<open>StreamableHTTPServerTransport\<close> the gateway reads only the field
  \<^verbatim>\<open>sessionId\<close>, undefined (\<open>None\<close>) until the transport has initialised and fixed from
  then on, so that a session can hold the transport by its value.
\<close>

type_synonym server = nat

record transport =
  sessionId :: "string option"

record session =
  transport :: transport
  server :: server

record fileResource =
  owner :: server
  filePath :: string
  mimeType :: "string option"
  name :: string
  expiry :: nat

record resourceManager =
  enabled :: bool
  ttlSeconds :: nat
  records :: "string \<rightharpoonup> fileResource"

text \<open>
  The state the request handler closes over: the object \<^verbatim>\<open>sessions\<close> (an association list
  in insertion order, as \<^verbatim>\<open>Object.keys\<close> enumerates it), the map \<^verbatim>\<open>sessionByServer\<close>, the
  resource manager's table, the servers whose \<^verbatim>\<open>close()\<close> has been called, and the next
  server identity.
\<close>

record gateway =
  sessions :: "(string \<times> session) list"
  sessionByServer :: "server \<rightharpoonup> string"
  resources :: resourceManager
  closedServers :: "server set"
  nextServer :: nat

record config =
  normalizedPath :: string

text \<open>
  \<^verbatim>\<open>sessions\<close> is a plain object, so \<^verbatim>\<open>sessions[id]\<close> finds an own property first and
  otherwise what \<^verbatim>\<open>Object.prototype\<close> has under that name: a function (for \<^verbatim>\<open>__proto__\<close> the
  prototype itself), truthy and without the fields \<^verbatim>\<open>transport\<close> and \<^verbatim>\<open>server\<close>.
\<close>

datatype 'a property = Undefined | Inherited | Own 'a

definition objectPrototypeNames :: "string list" where
  "objectPrototypeNames =
     [''constructor'', ''__defineGetter__'', ''__defineSetter__'', ''hasOwnProperty'',
      ''__lookupGetter__'', ''__lookupSetter__'', ''isPrototypeOf'', ''propertyIsEnumerable'',
      ''toString'', ''valueOf'', ''__proto__'', ''toLocaleString'']"

definition sessionsAt :: "gateway \<Rightarrow> string \<Rightarrow> session property" where
  "sessionsAt g sid =
     (case map_of (sessions g) sid of
        Some s \<Rightarrow> Own s
      | None \<Rightarrow> if sid \<in> set objectPrototypeNames then Inherited else Undefined)"

text \<open>
  A request as the handler reads it: \<^verbatim>\<open>req.url\<close> (missing, rejected by \<^verbatim>\<open>new URL\<close>, or parsed
  to its pathname), \<^verbatim>\<open>req.method\<close>, the header \<^verbatim>\<open>mcp-session-id\<close> after \<^verbatim>\<open>String(...)\<close>, and
  the concatenated body.
\<close>

datatype requestUrl = NoUrl | InvalidUrl | Pathname string

record request =
  url :: requestUrl
  reqMethod :: "string option"
  mcpSessionId :: "string option"
  rawBody :: string

text \<open>
  What the handler calls outside this repository: \<^verbatim>\<open>JSON.parse\<close> (\<open>None\<close> when it throws),
  the truthiness of a parsed value, the SDK's \<^verbatim>\<open>isInitializeRequest\<close>, \<^verbatim>\<open>fs.promises.stat\<close>
  (the size, \<open>None\<close> when it rejects) and \<^verbatim>\<open>path.basename\<close>.
\<close>

record 'j externals =
  JSON_parse :: "string \<Rightarrow> 'j option"
  truthy :: "'j \<Rightarrow> bool"
  isInitializeRequest :: "'j \<Rightarrow> bool"
  stat :: "string \<Rightarrow> nat option"
  basename :: "string \<Rightarrow> string"

text \<open>
  What one awaited call into the SDK (\<^verbatim>\<open>mcpServer.connect\<close>, \<^verbatim>\<open>transport.handleRequest\<close>) did:
  whether a transport without a session id called its \<^verbatim>\<open>sessionIdGenerator\<close>, which is
  \<^verbatim>\<open>() => randomUUID()\<close> (then \<open>minted\<close> is the number drawn; the transport sets the UUID
  as its \<^verbatim>\<open>sessionId\<close> and passes it to \<^verbatim>\<open>onsessioninitialized\<close>); whether the transport then
  ran its \<^verbatim>\<open>onclose\<close>; and whether the call returned or threw (with \<^verbatim>\<open>res.headersSent\<close>).
\<close>

datatype completion = Returned | Threw bool

record handled =
  minted :: "nat option"
  signalsClose :: bool
  completion :: completion

datatype response =
    PlainText nat string
  | JsonRpcError nat int string
  | FileDownload string nat string
  | FromTransport

section \<open>The resource manager\<close>

text \<open>
  Modelled from the spec: \<^verbatim>\<open>configureResourceManager\<close> of the module \<^verbatim>\<open>resourceManager\<close>, which is not
  among the sources. It fixes \<open>enabled\<close> and \<open>ttlSeconds\<close> once at startup; the table starts
  empty.
\<close>

definition configureResourceManager :: "bool \<Rightarrow> nat \<Rightarrow> resourceManager" where
  "configureResourceManager en ttl = \<lparr>enabled = en, ttlSeconds = ttl, records = Map.empty\<rparr>"

text \<open>
  Modelled from the spec: the register operation of the module \<^verbatim>\<open>resourceManager\<close>, which is not among
  the sources. It stores the record under the id it allocated (here \<open>rid\<close>, opaque) with
  expiry = now + ttl; a disabled manager stores nothing.
\<close>

definition registerResource ::
  "nat \<Rightarrow> server \<Rightarrow> string \<Rightarrow> string \<Rightarrow> string option \<Rightarrow> string \<Rightarrow> resourceManager \<Rightarrow> resourceManager" where
  "registerResource now srv rid path mime nm rm =
     (if enabled rm
      then rm\<lparr>records := (records rm)(rid \<mapsto>
             \<lparr>owner = srv, filePath = path, mimeType = mime, name = nm,
              expiry = now + ttlSeconds rm\<rparr>)\<rparr>
      else rm)"

text \<open>
  Modelled from the spec: \<^verbatim>\<open>getFileResourceById\<close> of the module \<^verbatim>\<open>resourceManager\<close>, which is not among
  the sources. It returns absent if the id is unknown, if the record's owner is another
  server, or if now \<ge> expiry; whether an expired record has been purged is not observable.
\<close>

definition getFileResourceById :: "resourceManager \<Rightarrow> nat \<Rightarrow> server \<Rightarrow> string \<Rightarrow> fileResource option" where
  "getFileResourceById rm now srv rid =
     (if \<not> enabled rm then None
      else (case records rm rid of
              None \<Rightarrow> None
            | Some r \<Rightarrow> if owner r \<noteq> srv \<or> expiry r \<le> now then None else Some r))"

text \<open>
  Modelled from the spec: \<^verbatim>\<open>clearResourcesForServer\<close> of the module \<^verbatim>\<open>resourceManager\<close>, which is not
  among the sources. It removes all records owned by that server instance.
\<close>

definition clearResourcesForServer :: "server \<Rightarrow> resourceManager \<Rightarrow> resourceManager" where
  "clearResourcesForServer srv rm =
     rm\<lparr>records := (\<lambda>rid. case records rm rid of
                              None \<Rightarrow> None
                            | Some r \<Rightarrow> if owner r = srv then None else Some r)\<rparr>"

section \<open>The request handler\<close>

definition downloadPrefix :: "config \<Rightarrow> string" where
  "downloadPrefix cfg = normalizedPath cfg @ ''/resources/''"

definition sendJsonError :: "nat \<Rightarrow> string \<Rightarrow> response" where
  "sendJsonError status message = JsonRpcError status (- 32000) message"

text \<open>
  \<^verbatim>\<open>getSession\<close>: \<^verbatim>\<open>undefined\<close> for a missing or empty header; otherwise
  \<^verbatim>\<open>sessions[sessionId]\<close>, which need not be a session.
\<close>

definition getSession :: "gateway \<Rightarrow> request \<Rightarrow> session property" where
  "getSession g req =
     (case mcpSessionId req of
        None \<Rightarrow> Undefined
      | Some sid \<Rightarrow> if sid = [] then Undefined else sessionsAt g sid)"

text \<open>
  The two assignments made when a session id becomes known (in \<^verbatim>\<open>onsessioninitialized\<close>, and
  after the constructor when \<^verbatim>\<open>transport.sessionId\<close> is already set).
\<close>

definition registerSession :: "transport \<Rightarrow> server \<Rightarrow> string \<Rightarrow> gateway \<Rightarrow> gateway" where
  "registerSession t mcpServer sid g =
     g\<lparr>sessions := AList.update sid \<lparr>transport = t, server = mcpServer\<rparr> (sessions g),
       sessionByServer := (sessionByServer g)(mcpServer \<mapsto> sid)\<rparr>"

text \<open>
  \<^verbatim>\<open>transport.onclose\<close>, for the transport and server the callback closes over. The rejection
  of \<^verbatim>\<open>mcpServer.close()\<close> is only logged there.
\<close>

definition onclose :: "transport \<Rightarrow> server \<Rightarrow> gateway \<Rightarrow> gateway" where
  "onclose t mcpServer g =
     (let g1 = (case sessionId t of
                  None \<Rightarrow> g
                | Some sid \<Rightarrow>
                    if sid \<noteq> [] \<and> sessionsAt g sid \<noteq> Undefined
                    then g\<lparr>sessions := AList.delete sid (sessions g)\<rparr>
                    else g);
          g2 = g1\<lparr>closedServers := insert mcpServer (closedServers g1)\<rparr>;
          g3 = g2\<lparr>resources := clearResourcesForServer mcpServer (resources g2)\<rparr>
      in g3\<lparr>sessionByServer := (sessionByServer g3)(mcpServer := None)\<rparr>)"

text \<open>
  The callbacks one awaited SDK call runs, in order: a transport that has no session id yet
  may mint one (\<^verbatim>\<open>onsessioninitialized\<close>), and any transport may close (\<^verbatim>\<open>onclose\<close>). The
  transport comes back with its \<^verbatim>\<open>sessionId\<close> as the call left it.
\<close>

definition handleRequest :: "transport \<Rightarrow> server \<Rightarrow> handled \<Rightarrow> gateway \<Rightarrow> transport \<times> gateway" where
  "handleRequest t mcpServer h g =
     (let (t1, g1) =
            (case (sessionId t, minted h) of
               (None, Some n) \<Rightarrow>
                 (t\<lparr>sessionId := Some (randomUUID n)\<rparr>,
                  registerSession (t\<lparr>sessionId := Some (randomUUID n)\<rparr>) mcpServer
                    (randomUUID n) g)
             | _ \<Rightarrow> (t, g))
      in (t1, if signalsClose h then onclose t1 mcpServer g1 else g1))"

text \<open>
  The \<^verbatim>\<open>catch\<close> of the handler: the JSON-RPC error \<open>-32603\<close> with status 500 unless the
  response has begun, in which case the error is only logged.
\<close>

definition caught :: "bool \<Rightarrow> response" where
  "caught headersSent =
     (if headersSent then FromTransport else JsonRpcError 500 (- 32603) ''Internal server error'')"

definition finished :: "handled \<Rightarrow> response" where
  "finished h = (case completion h of Returned \<Rightarrow> FromTransport | Threw headersSent \<Rightarrow> caught headersSent)"

text \<open>
  The branch for a pathname under the download prefix. When \<^verbatim>\<open>sessions[sessionId]\<close> is an
  inherited property, \<^verbatim>\<open>session.server\<close> is \<^verbatim>\<open>undefined\<close>, which owns no record: the lookup
  of the resource is absent, as the spec has it for another owner.
\<close>

definition serveDownload :: "'j externals \<Rightarrow> config \<Rightarrow> nat \<Rightarrow> string \<Rightarrow> gateway \<Rightarrow> response" where
  "serveDownload ex cfg now pathname g =
     (case split CHR ''/'' (drop (length (downloadPrefix cfg)) pathname) of
        sid # resourceId # _ \<Rightarrow>
          (case sessionsAt g sid of
             Undefined \<Rightarrow> PlainText 404 ''Not Found''
           | found \<Rightarrow>
               (case (case found of
                        Own s \<Rightarrow> getFileResourceById (resources g) now (server s) resourceId
                      | _ \<Rightarrow> None) of
                  None \<Rightarrow> PlainText 404 ''Not Found''
                | Some fileResource \<Rightarrow>
                    (case stat ex (filePath fileResource) of
                       None \<Rightarrow> PlainText 500 ''Failed to serve file''
                     | Some fileSize \<Rightarrow>
                         FileDownload
                           (case mimeType fileResource of
                              None \<Rightarrow> ''application/octet-stream''
                            | Some m \<Rightarrow> m)
                           fileSize
                           (basename ex (name fileResource)))))
      | _ \<Rightarrow> PlainText 400 ''Invalid download path'')"

text \<open>
  The branch \<^verbatim>\<open>method === "POST"\<close>. \<open>parsedBody\<close> is \<open>None\<close> for \<^verbatim>\<open>undefined\<close>, the value it
  keeps when the raw body is empty. When \<^verbatim>\<open>getSession()\<close> is an inherited property,
  \<^verbatim>\<open>existingSession.transport\<close> is \<^verbatim>\<open>undefined\<close> and the call of \<^verbatim>\<open>handleRequest\<close> on it throws
  before anything is sent.
\<close>

definition handlePost :: "'j externals \<Rightarrow> request \<Rightarrow> handled \<Rightarrow> gateway \<Rightarrow> response \<times> gateway" where
  "handlePost ex req h g =
     (if rawBody req \<noteq> [] \<and> JSON_parse ex (rawBody req) = None
      then (sendJsonError 400 ''Invalid JSON body'', g)
      else
        let parsedBody = (if rawBody req \<noteq> [] then JSON_parse ex (rawBody req) else None) in
        (case getSession g req of
           Own existingSession \<Rightarrow>
             (finished h,
              snd (handleRequest (transport existingSession) (server existingSession) h g))
         | Inherited \<Rightarrow> (caught False, g)
         | Undefined \<Rightarrow>
             if \<not> (case parsedBody of
                      None \<Rightarrow> False
                    | Some b \<Rightarrow> truthy ex b \<and> isInitializeRequest ex b)
             then (sendJsonError 400 ''Bad Request: No valid session ID provided'', g)
             else
               let mcpServer = nextServer g;
                   g0 = g\<lparr>nextServer := Suc (nextServer g)\<rparr>;
                   t0 = \<lparr>sessionId = None\<rparr>;
                   g1 = (case sessionId t0 of
                           None \<Rightarrow> g0
                         | Some sid \<Rightarrow> if sid \<noteq> [] then registerSession t0 mcpServer sid g0 else g0)
               in (finished h, snd (handleRequest t0 mcpServer h g1))))"

text \<open>
  The branch \<^verbatim>\<open>method === "GET" || method === "DELETE"\<close>. An inherited property is truthy,
  and \<^verbatim>\<open>session.transport.handleRequest\<close> throws on it as in the POST branch.
\<close>

definition handleGetOrDelete :: "string \<Rightarrow> request \<Rightarrow> handled \<Rightarrow> gateway \<Rightarrow> response \<times> gateway" where
  "handleGetOrDelete m req h g =
     (case getSession g req of
        Undefined \<Rightarrow> (PlainText 400 ''Invalid or missing session ID'', g)
      | Inherited \<Rightarrow> (caught False, g)
      | Own s \<Rightarrow>
          let (t1, g1) = handleRequest (transport s) (server s) h g in
          (case completion h of
             Threw headersSent \<Rightarrow> (caught headersSent, g1)
           | Returned \<Rightarrow>
               (FromTransport,
                (case sessionId t1 of
                   None \<Rightarrow> g1
                 | Some sid \<Rightarrow>
                     if m = ''DELETE'' \<and> sid \<noteq> []
                     then g1\<lparr>resources := clearResourcesForServer (server s) (resources g1),
                             sessions := AList.delete sid (sessions g1),
                             sessionByServer := (sessionByServer g1)((server s) := None)\<rparr>
                     else g1))))"

text \<open>\<^verbatim>\<open>req.method ?? "GET"\<close>.\<close>

definition methodOf :: "request \<Rightarrow> string" where
  "methodOf req = (case reqMethod req of None \<Rightarrow> ''GET'' | Some m \<Rightarrow> m)"

text \<open>
  The handler passed to \<^verbatim>\<open>createServer\<close>: the response it sends and the state it leaves.
  \<open>now\<close> is the clock the resource manager reads.
\<close>

definition handle :: "'j externals \<Rightarrow> config \<Rightarrow> nat \<Rightarrow> request \<Rightarrow> handled \<Rightarrow> gateway \<Rightarrow> response \<times> gateway" where
  "handle ex cfg now req h g =
     (case url req of
        InvalidUrl \<Rightarrow> (caught False, g)
      | NoUrl \<Rightarrow> (PlainText 404 ''Not Found'', g)
      | Pathname pathname \<Rightarrow>
          if startsWith pathname (downloadPrefix cfg)
          then (serveDownload ex cfg now pathname g, g)
          else if pathname \<noteq> normalizedPath cfg
          then (PlainText 404 ''Not Found'', g)
          else
            if methodOf req = ''POST'' then handlePost ex req h g
            else if methodOf req = ''GET'' \<or> methodOf req = ''DELETE''
            then handleGetOrDelete (methodOf req) req h g
            else (PlainText 405 ''Method Not Allowed'', g))"

section \<open>Startup, events and runs\<close>

text \<open>
  \<^verbatim>\<open>startStreamableHttpServer\<close> up to \<^verbatim>\<open>listen\<close>: the path is normalised (which may throw), the
  resource manager is enabled with the given time to live, and there is no session.
\<close>

definition initialGateway :: "nat \<Rightarrow> gateway" where
  "initialGateway resourceTtlSeconds =
     \<lparr>sessions = [], sessionByServer = Map.empty,
      resources = configureResourceManager True resourceTtlSeconds,
      closedServers = {}, nextServer = 0\<rparr>"

definition startStreamableHttpServer :: "string \<Rightarrow> nat \<Rightarrow> error + config \<times> gateway" where
  "startStreamableHttpServer path resourceTtlSeconds =
     (case normalizeHttpPath path of
        Inl e \<Rightarrow> Inl e
      | Inr p \<Rightarrow> Inr (\<lparr>normalizedPath = p\<rparr>, initialGateway resourceTtlSeconds))"

text \<open>
  What can happen to a running gateway: a request arrives (with the clock and with what the
  SDK does when the request is forwarded), a transport closes on its own, or a tool
  registers a resource for its server.
\<close>

datatype event =
    Request nat request handled
  | TransportClosed transport server
  | ResourceRegistered nat server string string "string option" string

fun step :: "'j externals \<Rightarrow> config \<Rightarrow> event \<Rightarrow> gateway \<Rightarrow> gateway" where
  "step ex cfg (Request now req h) g = snd (handle ex cfg now req h g)"
| "step ex cfg (TransportClosed t mcpServer) g = onclose t mcpServer g"
| "step ex cfg (ResourceRegistered now srv rid path mime nm) g =
     g\<lparr>resources := registerResource now srv rid path mime nm (resources g)\<rparr>"

fun run :: "'j externals \<Rightarrow> config \<Rightarrow> event list \<Rightarrow> gateway \<Rightarrow> gateway" where
  "run ex cfg [] g = g"
| "run ex cfg (ev # evs) g = run ex cfg evs (step ex cfg ev g)"

text \<open>The session id an event mints, if any.\<close>

fun mints :: "event \<Rightarrow> string option" where
  "mints (Request now req h) = map_option randomUUID (minted h)"
| "mints _ = None"

section \<open>Shutdown\<close>

text \<open>
  What \<^verbatim>\<open>session.server.close()\<close> does for a server: whether it rejects, and whether the
  transport runs its \<^verbatim>\<open>onclose\<close> on the way.
\<close>

record closing =
  rejects :: bool
  firesClose :: bool

text \<open>
  The loop of \<^verbatim>\<open>close\<close> over \<^verbatim>\<open>Object.keys(sessions)\<close>. It returns the session ids whose
  closing was logged as failed: a rejected \<^verbatim>\<open>close()\<close>, or an id whose entry is gone, where
  \<^verbatim>\<open>session.server\<close> (or \<^verbatim>\<open>close\<close> on it) throws inside the \<^verbatim>\<open>try\<close>.
\<close>

fun drain :: "(server \<Rightarrow> closing) \<Rightarrow> string list \<Rightarrow> gateway \<Rightarrow> string list \<times> gateway" where
  "drain cl [] g = ([], g)"
| "drain cl (sid # sessionIds) g =
     (let (failed, g1) =
            (case sessionsAt g sid of
               Own s \<Rightarrow>
                 (rejects (cl (server s)),
                  let g0 = g\<lparr>closedServers := insert (server s) (closedServers g)\<rparr>
                  in if firesClose (cl (server s)) then onclose (transport s) (server s) g0 else g0)
             | _ \<Rightarrow> (True, g));
          g2 = g1\<lparr>sessions := AList.delete sid (sessions g1)\<rparr>;
          (errs, g3) = drain cl sessionIds g2
      in ((if failed then [sid] else []) @ errs, g3))"

text \<open>
  \<^verbatim>\<open>close\<close>: the drain, then the HTTP server's own \<^verbatim>\<open>close\<close>, whose error rejects the promise
  (the first component).
\<close>

definition close :: "(server \<Rightarrow> closing) \<Rightarrow> bool \<Rightarrow> gateway \<Rightarrow> bool \<times> string list \<times> gateway" where
  "close cl httpCloseFails g =
     (let (errs, g1) = drain cl (map fst (sessions g)) g in (httpCloseFails, errs, g1))"

text \<open>
  \<^verbatim>\<open>registerShutdown(close)\<close>: the flag \<^verbatim>\<open>isShuttingDown\<close>, the gateway the cleanup works on,
  what was logged as an error, and whether \<^verbatim>\<open>process.exit(0)\<close> has been reached.
\<close>

datatype logged = ErrorClosingSession string | ErrorDuringShutdown

record process =
  isShuttingDown :: bool
  running :: gateway
  errorLog :: "logged list"
  exited :: bool

definition shutdown :: "(server \<Rightarrow> closing) \<Rightarrow> bool \<Rightarrow> process \<Rightarrow> process" where
  "shutdown cl httpCloseFails p =
     (if isShuttingDown p then p
      else
        let (rejected, errs, g1) = close cl httpCloseFails (running p) in
        p\<lparr>isShuttingDown := True,
          running := g1,
          errorLog := errorLog p @ map ErrorClosingSession errs
                      @ (if rejected then [ErrorDuringShutdown] else []),
          exited := True\<rparr>)"

section \<open>The registry invariant\<close>

text \<open>
  What holds of \<^verbatim>\<open>sessions\<close> in every state the gateway reaches: no id occurs twice; a session
  is stored under the id of its own transport, which is not a name that \<^verbatim>\<open>Object.prototype\<close>
  has, with a server that \<^verbatim>\<open>createMcpServer\<close> has returned; and no two sessions share a
  server. \<open>registryOk\<close> says the same through lookups.
\<close>

definition consistent :: "gateway \<Rightarrow> bool" where
  "consistent g \<longleftrightarrow>
     distinct (map fst (sessions g)) \<and>
     (\<forall>(k, s) \<in> set (sessions g).
        sessionId (transport s) = Some k \<and> k \<notin> set objectPrototypeNames \<and>
        server s < nextServer g) \<and>
     (\<forall>(k, s) \<in> set (sessions g). \<forall>(k', s') \<in> set (sessions g). server s = server s' \<longrightarrow> k = k')"

definition registryOk :: "(string \<times> session) list \<Rightarrow> nat \<Rightarrow> bool" where
  "registryOk ss n \<longleftrightarrow>
     distinct (map fst ss) \<and>
     (\<forall>k s. map_of ss k = Some s \<longrightarrow>
        sessionId (transport s) = Some k \<and> k \<notin> set objectPrototypeNames \<and> server s < n) \<and>
     (\<forall>k k' s s'. map_of ss k = Some s \<and> map_of ss k' = Some s' \<and> server s = server s' \<longrightarrow> k = k')"

section \<open>Sample values\<close>

text \<open>
  Concrete collaborators, requests and runs on which the theorems below are instantiated:
  a parser that accepts the two bodies \<open>init\<close> and \<open>call\<close>, of which \<open>init\<close> is the
  initialize request; the default path; and a gateway with two sessions, whose ids are the
  UUIDs of the numbers 1 and 2, the first of which owns one resource registered at time 5
  with a time to live of 1.
\<close>

definition sampleExternals :: "string externals" where
  "sampleExternals =
     \<lparr>JSON_parse = (\<lambda>s. if s = ''init'' \<or> s = ''call'' then Some s else None),
      truthy = (\<lambda>b. True),
      isInitializeRequest = (\<lambda>b. b = ''init''),
      stat = (\<lambda>f. Some 3),
      basename = (\<lambda>f. f)\<rparr>"

definition sampleConfig :: config where
  "sampleConfig = \<lparr>normalizedPath = ''/mcp''\<rparr>"

definition sampleRequest :: "string \<Rightarrow> string \<Rightarrow> string option \<Rightarrow> string \<Rightarrow> request" where
  "sampleRequest m p sid body =
     \<lparr>url = Pathname p, reqMethod = Some m, mcpSessionId = sid, rawBody = body\<rparr>"

definition returns :: "nat option \<Rightarrow> bool \<Rightarrow> handled" where
  "returns n closes = \<lparr>minted = n, signalsClose = closes, completion = Returned\<rparr>"

definition sessionOne :: string where
  "sessionOne = ''00000000-0000-0000-0000-000000000001''"

definition sessionTwo :: string where
  "sessionTwo = ''00000000-0000-0000-0000-000000000002''"

definition sampleEvents :: "event list" where
  "sampleEvents =
     [Request 0 (sampleRequest ''POST'' ''/mcp'' None ''init'') (returns (Some 1) False),
      Request 0 (sampleRequest ''POST'' ''/mcp'' None ''init'') (returns (Some 2) False),
      ResourceRegistered 5 0 ''r1'' ''/data/shot.png'' (Some ''image/png'') ''shot.png'']"

definition sampleGateway :: gateway where
  "sampleGateway =
     \<lparr>sessions = [(sessionOne, \<lparr>transport = \<lparr>sessionId = Some sessionOne\<rparr>, server = 0\<rparr>),
                  (sessionTwo, \<lparr>transport = \<lparr>sessionId = Some sessionTwo\<rparr>, server = 1\<rparr>)],
      sessionByServer = [0 \<mapsto> sessionOne, 1 \<mapsto> sessionTwo],
      resources = \<lparr>enabled = True, ttlSeconds = 1,
                   records = [''r1'' \<mapsto> \<lparr>owner = 0, filePath = ''/data/shot.png'',
                                          mimeType = Some ''image/png'', name = ''shot.png'',
                                          expiry = 6\<rparr>]\<rparr>,
      closedServers = {}, nextServer = 2\<rparr>"

section \<open>Properties of strings\<close>

lemma split_not_Nil: "split c s \<noteq> []"
  by (induction s) (auto split: list.splits)

lemma trim_hd: "trim v \<noteq> [] \<Longrightarrow> \<not> isWhiteSpace (hd (trim v))"
proof -
  let ?d = "dropWhile isWhiteSpace v"
  let ?e = "dropWhile isWhiteSpace (rev ?d)"
  assume "trim v \<noteq> []"
  then have e: "?e \<noteq> []" by (simp add: trim_def)
  then have "rev ?d \<noteq> []" by (metis dropWhile.simps(1))
  then have d: "?d \<noteq> []" by (simp only: rev_is_Nil_conv not_False_eq_True)
  have "hd (trim v) = last ?e" by (simp add: trim_def hd_rev)
  also have "\<dots> = last (rev ?d)" using e by (metis dropWhile_eq_Nil_conv dropWhile_last)
  also have "\<dots> = hd ?d" by (simp add: last_rev)
  finally show ?thesis using d hd_dropWhile[of isWhiteSpace v] by simp
qed

lemma trim_last: "trim v \<noteq> [] \<Longrightarrow> \<not> isWhiteSpace (last (trim v))"
  by (metis hd_dropWhile hd_rev rev.simps(1) rev_rev_ident trim_def)

lemma trim_id: "s \<noteq> [] \<Longrightarrow> \<not> isWhiteSpace (hd s) \<Longrightarrow> \<not> isWhiteSpace (last s) \<Longrightarrow> trim s = s"
  by (metis dropWhile_eq_self_iff hd_rev rev_rev_ident trim_def)

lemma slash_not_ws: "\<not> isWhiteSpace CHR ''/''"
  by (simp add: isWhiteSpace_def)

lemma startsWith_slash: "startsWith s ''/'' \<longleftrightarrow> s \<noteq> [] \<and> hd s = CHR ''/''"
  by (cases s) (auto simp: startsWith_def)

lemma endsWith_slash: "endsWith s ''/'' \<longleftrightarrow> s \<noteq> [] \<and> last s = CHR ''/''"
  by (cases s rule: rev_cases) (auto simp: endsWith_def)

lemma endsWith2: "endsWith s [a, b] \<longleftrightarrow> (\<exists>p. s = p @ [a, b])"
  by (auto simp: endsWith_def suffix_def)

section \<open>Session ids\<close>

lemma length_hex: "length (hex l n) = l"
  by (induction l arbitrary: n) simp_all

lemma length_randomUUID: "length (randomUUID n) = 36"
  by (simp add: randomUUID_def Let_def length_hex)

text \<open>A UUID is longer than every name of \<^verbatim>\<open>Object.prototype\<close>, and not empty.\<close>

lemma randomUUID_not_inherited: "randomUUID n \<notin> set objectPrototypeNames"
proof
  assume "randomUUID n \<in> set objectPrototypeNames"
  moreover have "\<forall>x \<in> set objectPrototypeNames. length x \<le> 20"
    by (simp add: objectPrototypeNames_def)
  ultimately have "length (randomUUID n) \<le> 20"
    by blast
  then show False
    by (simp add: length_randomUUID)
qed

lemma randomUUID_not_empty: "randomUUID n \<noteq> []"
  using length_randomUUID[of n] by auto

lemma randomUUID_sample:
  "randomUUID 1 = sessionOne" "randomUUID (Suc 0) = sessionOne" "randomUUID 2 = sessionTwo"
  "randomUUID 3 = ''00000000-0000-0000-0000-000000000003''"
  by code_simp+

lemma sample_ids_not_inherited:
  "sessionOne \<notin> set objectPrototypeNames" "sessionTwo \<notin> set objectPrototypeNames"
  by (simp_all add: sessionOne_def sessionTwo_def objectPrototypeNames_def)

section \<open>Path normalisation: what is returned\<close>

text \<open>The value returned when the trimmed input is \<open>c # cs\<close>.\<close>

lemma normalize_trimmed:
  assumes "trim v = c # cs"
  shows "normalizeHttpPath v =
     Inr (let w = (if c = CHR ''/'' then c # cs else CHR ''/'' # c # cs)
          in if last w = CHR ''/'' \<and> w \<noteq> ''/'' then butlast w else w)"
  unfolding normalizeHttpPath_def Let_def assms
  by (simp add: startsWith_slash endsWith_slash del: last.simps butlast.simps)

text \<open>
  A path that starts with a slash, and after it neither ends in a slash nor in white space,
  is returned as it is.
\<close>

lemma normalize_fixed:
  assumes "z = [] \<or> last z \<noteq> CHR ''/''" and "z = [] \<or> \<not> isWhiteSpace (last z)"
  shows "normalizeHttpPath (CHR ''/'' # z) = Inr (CHR ''/'' # z)"
proof -
  have "trim (CHR ''/'' # z) = CHR ''/'' # z"
    using assms(2) by (intro trim_id) (auto simp: slash_not_ws)
  then show ?thesis
    using assms(1) by (auto simp: normalizeHttpPath_def startsWith_slash endsWith_slash)
qed

text \<open>
  C9 (as amended). An input that is empty after trimming raises, also when the input itself
  is not empty. For every other input \<^verbatim>\<open>normalizeHttpPath\<close> returns a string that starts with a
  slash. It removes one trailing slash: when the trimmed input does not end in two slashes,
  the result ends in a slash only if it is the root \<open>/\<close>; and when, besides, no white space
  stands before a final slash, normalising the result again returns it unchanged.
\<close>

theorem normalizeHttpPath_shape:
  assumes "trim v \<noteq> []"
  shows "\<exists>r. normalizeHttpPath v = Inr r \<and> startsWith r ''/'' \<and>
           (\<not> endsWith (trim v) ''//'' \<longrightarrow> (endsWith r ''/'' \<longrightarrow> r = ''/'')) \<and>
           (\<not> endsWith (trim v) ''//'' \<and>
            (\<forall>c. isWhiteSpace c \<longrightarrow> \<not> endsWith (trim v) [c, CHR ''/'']) \<longrightarrow>
              normalizeHttpPath r = Inr r)"
proof -
  obtain c cs where t: "trim v = c # cs"
    using assms by (cases "trim v") auto
  define u where "u = (if c = CHR ''/'' then cs else c # cs)"
  have w: "(if c = CHR ''/'' then c # cs else CHR ''/'' # c # cs) = CHR ''/'' # u"
    by (simp add: u_def)
  have tu: "trim v = CHR ''/'' # u \<or> trim v = u"
    by (auto simp: t u_def)
  have lastt: "u \<noteq> [] \<Longrightarrow> \<not> isWhiteSpace (last u)"
    using trim_last[OF assms] tu by (auto split: if_splits)
  note nt = normalize_trimmed[OF t, unfolded w]
  show ?thesis
  proof (cases u rule: rev_cases)
    case Nil
    then show ?thesis
      using nt normalize_fixed[of "[]"] by (simp add: startsWith_slash)
  next
    case (snoc u' x)
    show ?thesis
    proof (cases "x = CHR ''/''")
      case False
      then have "normalizeHttpPath v = Inr (CHR ''/'' # u)"
        using nt snoc by simp
      moreover have "normalizeHttpPath (CHR ''/'' # u) = Inr (CHR ''/'' # u)"
        using False snoc lastt by (intro normalize_fixed) auto
      ultimately show ?thesis
        using False snoc by (simp add: startsWith_slash endsWith_slash)
    next
      case True
      then have r: "normalizeHttpPath v = Inr (CHR ''/'' # u')"
        using nt snoc by (simp add: butlast_append)
      show ?thesis
      proof (cases u' rule: rev_cases)
        case Nil
        then show ?thesis
          using r normalize_fixed[of "[]"] by (simp add: startsWith_slash endsWith_slash)
      next
        case (snoc u'' y)
        have ends: "endsWith (trim v) [y, CHR ''/'']"
          using tu True \<open>u = u' @ [x]\<close> snoc by (auto simp: endsWith2)
        have "normalizeHttpPath (CHR ''/'' # u') = Inr (CHR ''/'' # u')"
          if "y \<noteq> CHR ''/''" and "\<not> isWhiteSpace y"
          using that snoc by (intro normalize_fixed) auto
        then show ?thesis
          using r ends snoc by (auto simp: startsWith_slash endsWith_slash)
      qed
    qed
  qed
qed

theorem normalizeHttpPath_shape_witness:
  "trim '' mcp/ '' \<noteq> [] \<and> normalizeHttpPath '' mcp/ '' = Inr ''/mcp'' \<and>
   startsWith ''/mcp'' ''/'' \<and> \<not> endsWith ''/mcp'' ''/'' \<and>
   normalizeHttpPath ''/mcp'' = Inr ''/mcp''"
  using normalizeHttpPath_shape[of "'' mcp/ ''"]
  by (simp add: normalizeHttpPath_def trim_def isWhiteSpace_def startsWith_def endsWith_def
      suffix_to_prefix)

text \<open>
  C9 as it is written fails: the one-space string is not empty and nothing is returned for
  it; \<open>a//\<close> is normalised to \<open>/a/\<close>, which ends in a slash and is not the root; and
  normalising \<open>/a/\<close> again gives \<open>/a\<close>.
\<close>

theorem normalizeHttpPath_counterexample:
  "'' '' \<noteq> [] \<and> normalizeHttpPath '' '' = Inl EmptyHttpPath \<and>
   normalizeHttpPath ''a//'' = Inr ''/a/'' \<and> normalizeHttpPath ''/a/'' = Inr ''/a''"
  by (simp add: normalizeHttpPath_def trim_def isWhiteSpace_def startsWith_def endsWith_def
      suffix_to_prefix)

section \<open>The sample run\<close>

lemma sample_run: "run sampleExternals sampleConfig sampleEvents (initialGateway 1) = sampleGateway"
  by (simp add: sampleEvents_def sampleGateway_def sampleExternals_def sampleConfig_def
      sampleRequest_def returns_def initialGateway_def handle_def handlePost_def getSession_def
      methodOf_def startsWith_def downloadPrefix_def handleRequest_def registerSession_def
      finished_def configureResourceManager_def registerResource_def sessionsAt_def
      objectPrototypeNames_def randomUUID_sample sessionOne_def sessionTwo_def)

lemma sample_start:
  "startStreamableHttpServer ''mcp/'' 1 = Inr (sampleConfig, initialGateway 1)"
  by (simp add: startStreamableHttpServer_def normalizeHttpPath_def trim_def isWhiteSpace_def
      startsWith_def endsWith_def suffix_to_prefix sampleConfig_def)

section \<open>Requests on the protocol path\<close>

lemma protocol_path_not_download: "\<not> startsWith (normalizedPath cfg) (downloadPrefix cfg)"
  by (simp add: startsWith_def downloadPrefix_def)

text \<open>
  C1. A POST to the protocol path whose body is not empty and does not parse as JSON is
  answered 400 with the JSON-RPC error envelope, code \<open>-32000\<close> and message
  \<open>Invalid JSON body\<close>; the state is left as it was. This holds in every state and for
  every value of the \<open>mcp-session-id\<close> header, present or not, resolvable or not: the
  response is sent before \<^verbatim>\<open>getSession\<close> is called.
\<close>

theorem invalid_json_body:
  assumes "url req = Pathname (normalizedPath cfg)"
    and "reqMethod req = Some ''POST''"
    and "rawBody req \<noteq> []"
    and "JSON_parse ex (rawBody req) = None"
  shows "handle ex cfg now (req\<lparr>mcpSessionId := sid\<rparr>) h g =
           (JsonRpcError 400 (- 32000) ''Invalid JSON body'', g)"
  using assms
  by (simp add: handle_def protocol_path_not_download methodOf_def handlePost_def
      sendJsonError_def)

theorem invalid_json_body_witness:
  "handle sampleExternals sampleConfig 0
     (sampleRequest ''POST'' ''/mcp'' (Some sessionOne) ''{'') (returns None False) sampleGateway =
   (JsonRpcError 400 (- 32000) ''Invalid JSON body'', sampleGateway)"
  using invalid_json_body[of "sampleRequest ''POST'' ''/mcp'' None ''{''" sampleConfig
      sampleExternals 0 "Some sessionOne" "returns None False" sampleGateway]
  by (simp add: sampleRequest_def sampleConfig_def sampleExternals_def)

text \<open>
  When the header names a property that \<^verbatim>\<open>sessions\<close> inherits and no session has that id,
  \<^verbatim>\<open>getSession()\<close> is truthy without being a session, and both branches that use it end in
  the \<^verbatim>\<open>catch\<close>.
\<close>

lemma getSession_inherited:
  assumes "mcpSessionId req = Some sid" and "sid \<in> set objectPrototypeNames"
    and "map_of (sessions g) sid = None"
  shows "getSession g req = Inherited"
  using assms by (auto simp: getSession_def sessionsAt_def objectPrototypeNames_def)

lemma getSession_Undefined_iff:
  "getSession g req = Undefined \<longleftrightarrow>
     (case mcpSessionId req of
        None \<Rightarrow> True
      | Some sid \<Rightarrow>
          sid = [] \<or> (map_of (sessions g) sid = None \<and> sid \<notin> set objectPrototypeNames))"
  by (auto simp: getSession_def sessionsAt_def split: option.splits)

text \<open>
  C6, at the input where the code departs from it. A POST to the protocol path with the
  header \<open>mcp-session-id: constructor\<close> and no body has no session to resolve to; yet
  \<^verbatim>\<open>getSession()\<close> is truthy, and the answer is not the 400
  \<open>Bad Request: No valid session ID provided\<close> but 500 with the code \<open>-32603\<close>. With no
  header at all the same request is answered as C6 says.
\<close>

theorem post_with_inherited_name:
  "map_of (sessions sampleGateway) ''constructor'' = None \<and>
   getSession sampleGateway (sampleRequest ''POST'' ''/mcp'' (Some ''constructor'') []) = Inherited \<and>
   handle sampleExternals sampleConfig 0
     (sampleRequest ''POST'' ''/mcp'' (Some ''constructor'') []) (returns None False) sampleGateway =
   (JsonRpcError 500 (- 32603) ''Internal server error'', sampleGateway) \<and>
   handle sampleExternals sampleConfig 0
     (sampleRequest ''POST'' ''/mcp'' None []) (returns None False) sampleGateway =
   (JsonRpcError 400 (- 32000) ''Bad Request: No valid session ID provided'', sampleGateway)"
  by (simp add: handle_def handlePost_def getSession_def sessionsAt_def objectPrototypeNames_def
      methodOf_def startsWith_def downloadPrefix_def sampleRequest_def sampleConfig_def
      sampleGateway_def sessionOne_def sessionTwo_def caught_def sendJsonError_def)

section \<open>Requests under the download prefix\<close>

text \<open>The four kinds of answer of the download branch.\<close>

lemma serveDownload_cases:
  "(\<exists>m f n. serveDownload ex cfg now p g = FileDownload m f n) \<or>
   serveDownload ex cfg now p g = PlainText 500 ''Failed to serve file'' \<or>
   serveDownload ex cfg now p g = PlainText 404 ''Not Found'' \<or>
   serveDownload ex cfg now p g = PlainText 400 ''Invalid download path''"
  by (simp add: serveDownload_def split: list.splits option.splits property.splits)

text \<open>
  C10. A request whose pathname is under the download prefix is answered by the download
  branch whatever its method, headers and body are: the answer is the one computed from the
  pathname alone, the state does not change, and the answer is never a JSON-RPC error
  envelope, never 405 and never left to a transport. In particular, a pathname of at least
  two segments whose first segment is not the id of a session is answered 404.
\<close>

theorem download_any_method:
  assumes "url req = Pathname p" and "startsWith p (downloadPrefix cfg)"
  shows "handle ex cfg now req h g = (serveDownload ex cfg now p g, g) \<and>
         (\<forall>status code message. fst (handle ex cfg now req h g) \<noteq> JsonRpcError status code message) \<and>
         (\<forall>message. fst (handle ex cfg now req h g) \<noteq> PlainText 405 message) \<and>
         fst (handle ex cfg now req h g) \<noteq> FromTransport \<and>
         (\<forall>sid rest. split CHR ''/'' (drop (length (downloadPrefix cfg)) p) = sid # rest
             \<and> rest \<noteq> [] \<and> map_of (sessions g) sid = None \<longrightarrow>
            fst (handle ex cfg now req h g) = PlainText 404 ''Not Found'')"
proof -
  have eq: "handle ex cfg now req h g = (serveDownload ex cfg now p g, g)"
    using assms by (simp add: handle_def)
  have unknown: "serveDownload ex cfg now p g = PlainText 404 ''Not Found''"
    if "split CHR ''/'' (drop (length (downloadPrefix cfg)) p) = sid # rest"
      and "rest \<noteq> []" and "map_of (sessions g) sid = None" for sid rest
    using that by (cases rest) (simp_all add: serveDownload_def sessionsAt_def)
  show ?thesis
    using serveDownload_cases[of ex cfg now p g] unknown by (auto simp: eq)
qed

theorem download_any_method_witness:
  "startsWith ''/mcp/resources/nobody/r1/shot.png'' (downloadPrefix sampleConfig) \<and>
   handle sampleExternals sampleConfig 5
     (sampleRequest ''POST'' ''/mcp/resources/nobody/r1/shot.png'' None ''{'') (returns None False) sampleGateway =
   (PlainText 404 ''Not Found'', sampleGateway) \<and>
   handle sampleExternals sampleConfig 5
     (sampleRequest ''PUT'' (''/mcp/resources/'' @ sessionOne @ ''/r1/shot.png'') None ''{'') (returns None False) sampleGateway =
   (FileDownload ''image/png'' 3 ''shot.png'', sampleGateway)"
  using download_any_method[of "sampleRequest ''POST'' ''/mcp/resources/nobody/r1/shot.png'' None ''{''"
      "''/mcp/resources/nobody/r1/shot.png''" sampleConfig sampleExternals 5 "returns None False" sampleGateway]
    download_any_method[of "sampleRequest ''PUT'' (''/mcp/resources/'' @ sessionOne @ ''/r1/shot.png'') None ''{''"
      "(''/mcp/resources/'' @ sessionOne @ ''/r1/shot.png'')" sampleConfig sampleExternals 5 "returns None False" sampleGateway]
  by (simp add: sampleRequest_def sampleConfig_def sampleExternals_def sampleGateway_def
      startsWith_def downloadPrefix_def serveDownload_def getFileResourceById_def
      sessionsAt_def objectPrototypeNames_def sessionOne_def sessionTwo_def)


section \<open>The shape of the error responses\<close>

text \<open>
  C4 (as amended). For a request whose URL parses: a POST to the protocol path whose body
  is not empty and is not JSON, and a POST that is not an initialize request while
  \<^verbatim>\<open>getSession()\<close> is \<^verbatim>\<open>undefined\<close> (the header is missing, empty, or names nothing that
  \<^verbatim>\<open>sessions\<close> has or inherits), are answered 400 with the JSON-RPC error envelope and the
  code \<open>-32000\<close>. A GET or DELETE for which \<^verbatim>\<open>getSession()\<close> is \<^verbatim>\<open>undefined\<close> is answered 400
  with the plain text \<open>Invalid or missing session ID\<close>, any other method on the protocol
  path 405 and any other path outside the download prefix 404, all three in plain text
  without the envelope; and no answer of the download branch is an envelope. Nothing is
  said of a URL that does not parse, nor of a header that names an inherited property.
\<close>

theorem client_errors:
  assumes "url req = Pathname p"
  shows "(startsWith p (downloadPrefix cfg) \<longrightarrow>
            (\<forall>status code message. fst (handle ex cfg now req h g) \<noteq> JsonRpcError status code message)) \<and>
         (\<not> startsWith p (downloadPrefix cfg) \<and> p \<noteq> normalizedPath cfg \<longrightarrow>
            handle ex cfg now req h g = (PlainText 404 ''Not Found'', g)) \<and>
         (p = normalizedPath cfg \<and> methodOf req = ''POST'' \<and> rawBody req \<noteq> [] \<and>
          JSON_parse ex (rawBody req) = None \<longrightarrow>
            handle ex cfg now req h g = (JsonRpcError 400 (- 32000) ''Invalid JSON body'', g)) \<and>
         (p = normalizedPath cfg \<and> methodOf req = ''POST'' \<and> getSession g req = Undefined \<and>
          (rawBody req = [] \<or>
           (\<exists>b. JSON_parse ex (rawBody req) = Some b \<and>
                \<not> (truthy ex b \<and> isInitializeRequest ex b))) \<longrightarrow>
            handle ex cfg now req h g =
              (JsonRpcError 400 (- 32000) ''Bad Request: No valid session ID provided'', g)) \<and>
         (p = normalizedPath cfg \<and> (methodOf req = ''GET'' \<or> methodOf req = ''DELETE'') \<and>
          getSession g req = Undefined \<longrightarrow>
            handle ex cfg now req h g = (PlainText 400 ''Invalid or missing session ID'', g)) \<and>
         (p = normalizedPath cfg \<and> methodOf req \<noteq> ''POST'' \<and> methodOf req \<noteq> ''GET'' \<and>
          methodOf req \<noteq> ''DELETE'' \<longrightarrow>
            handle ex cfg now req h g = (PlainText 405 ''Method Not Allowed'', g))"
proof (intro conjI impI)
  assume "startsWith p (downloadPrefix cfg)"
  then have "handle ex cfg now req h g = (serveDownload ex cfg now p g, g)"
    using assms by (simp add: handle_def)
  then show "\<forall>status code message. fst (handle ex cfg now req h g) \<noteq> JsonRpcError status code message"
    using serveDownload_cases[of ex cfg now p g] by auto
next
  assume "\<not> startsWith p (downloadPrefix cfg) \<and> p \<noteq> normalizedPath cfg"
  then show "handle ex cfg now req h g = (PlainText 404 ''Not Found'', g)"
    using assms by (simp add: handle_def)
next
  assume "p = normalizedPath cfg \<and> methodOf req = ''POST'' \<and> rawBody req \<noteq> [] \<and>
          JSON_parse ex (rawBody req) = None"
  then show "handle ex cfg now req h g = (JsonRpcError 400 (- 32000) ''Invalid JSON body'', g)"
    using assms
    by (simp add: handle_def protocol_path_not_download handlePost_def sendJsonError_def)
next
  assume "p = normalizedPath cfg \<and> methodOf req = ''POST'' \<and> getSession g req = Undefined \<and>
          (rawBody req = [] \<or>
           (\<exists>b. JSON_parse ex (rawBody req) = Some b \<and>
                \<not> (truthy ex b \<and> isInitializeRequest ex b)))"
  then show "handle ex cfg now req h g =
              (JsonRpcError 400 (- 32000) ''Bad Request: No valid session ID provided'', g)"
    using assms
    by (auto simp: handle_def protocol_path_not_download handlePost_def sendJsonError_def)
next
  assume "p = normalizedPath cfg \<and> (methodOf req = ''GET'' \<or> methodOf req = ''DELETE'') \<and>
          getSession g req = Undefined"
  then show "handle ex cfg now req h g = (PlainText 400 ''Invalid or missing session ID'', g)"
    using assms
    by (auto simp: handle_def protocol_path_not_download handleGetOrDelete_def)
next
  assume "p = normalizedPath cfg \<and> methodOf req \<noteq> ''POST'' \<and> methodOf req \<noteq> ''GET'' \<and>
          methodOf req \<noteq> ''DELETE''"
  then show "handle ex cfg now req h g = (PlainText 405 ''Method Not Allowed'', g)"
    using assms by (simp add: handle_def protocol_path_not_download)
qed

theorem client_errors_witness:
  "getSession sampleGateway (sampleRequest ''DELETE'' ''/mcp'' (Some ''gone'') []) = Undefined \<and>
   handle sampleExternals sampleConfig 0
     (sampleRequest ''DELETE'' ''/mcp'' (Some ''gone'') []) (returns None False) sampleGateway =
   (PlainText 400 ''Invalid or missing session ID'', sampleGateway) \<and>
   handle sampleExternals sampleConfig 0
     (sampleRequest ''PATCH'' ''/mcp'' (Some sessionOne) []) (returns None False) sampleGateway =
   (PlainText 405 ''Method Not Allowed'', sampleGateway) \<and>
   handle sampleExternals sampleConfig 0
     (sampleRequest ''GET'' ''/other'' (Some sessionOne) []) (returns None False) sampleGateway =
   (PlainText 404 ''Not Found'', sampleGateway) \<and>
   handle sampleExternals sampleConfig 0
     (sampleRequest ''POST'' ''/mcp'' None []) (returns None False) sampleGateway =
   (JsonRpcError 400 (- 32000) ''Bad Request: No valid session ID provided'', sampleGateway) \<and>
   handle sampleExternals sampleConfig 0
     (sampleRequest ''POST'' ''/mcp'' (Some ''gone'') ''{'') (returns None False) sampleGateway =
   (JsonRpcError 400 (- 32000) ''Invalid JSON body'', sampleGateway)"
  using client_errors[of "sampleRequest ''DELETE'' ''/mcp'' (Some ''gone'') []" "''/mcp''"
      sampleConfig sampleExternals 0 "returns None False" sampleGateway]
    client_errors[of "sampleRequest ''PATCH'' ''/mcp'' (Some sessionOne) []" "''/mcp''"
      sampleConfig sampleExternals 0 "returns None False" sampleGateway]
    client_errors[of "sampleRequest ''GET'' ''/other'' (Some sessionOne) []" "''/other''"
      sampleConfig sampleExternals 0 "returns None False" sampleGateway]
    client_errors[of "sampleRequest ''POST'' ''/mcp'' None []" "''/mcp''"
      sampleConfig sampleExternals 0 "returns None False" sampleGateway]
    client_errors[of "sampleRequest ''POST'' ''/mcp'' (Some ''gone'') ''{''" "''/mcp''"
      sampleConfig sampleExternals 0 "returns None False" sampleGateway]
  by (simp add: sampleRequest_def sampleConfig_def sampleExternals_def sampleGateway_def
      startsWith_def downloadPrefix_def methodOf_def getSession_def sessionsAt_def
      objectPrototypeNames_def sessionOne_def sessionTwo_def)

text \<open>
  C4 as it is written fails: the 400 sent for a GET without a session id is plain text, not
  the envelope.
\<close>

theorem client_errors_counterexample:
  "handle sampleExternals sampleConfig 0
     (sampleRequest ''GET'' ''/mcp'' None []) (returns None False) sampleGateway =
   (PlainText 400 ''Invalid or missing session ID'', sampleGateway) \<and>
   fst (handle sampleExternals sampleConfig 0
     (sampleRequest ''GET'' ''/mcp'' None []) (returns None False) sampleGateway) \<noteq>
   JsonRpcError 400 (- 32000) ''Invalid or missing session ID''"
  by (simp add: handle_def handleGetOrDelete_def getSession_def methodOf_def startsWith_def
      downloadPrefix_def sampleRequest_def sampleConfig_def)

section \<open>The registry invariant holds in every reachable state\<close>

lemma consistent_registryOk: "consistent g \<longleftrightarrow> registryOk (sessions g) (nextServer g)"
  unfolding consistent_def registryOk_def
  by (rule conj_cong[OF refl]) (auto, blast+)

lemma registryOk_delete: "registryOk ss n \<Longrightarrow> registryOk (AList.delete k ss) n"
  unfolding registryOk_def
  by (auto simp: distinct_delete delete_conv split: if_splits)

lemma registryOk_update:
  assumes "registryOk ss n" and "sessionId t = Some sid" and "sid \<notin> set objectPrototypeNames"
  shows "registryOk (AList.update sid \<lparr>transport = t, server = n\<rparr> ss) (Suc n)"
  using assms unfolding registryOk_def
  by (auto simp: distinct_update update_conv less_Suc_eq split: if_splits)
     (metis less_irrefl)+

lemma registryOk_Suc: "registryOk ss n \<Longrightarrow> registryOk ss (Suc n)"
  unfolding registryOk_def by (auto simp: less_Suc_eq)

lemma onclose_sessions:
  "sessions (onclose t srv g) = sessions g \<or> (\<exists>k. sessions (onclose t srv g) = AList.delete k (sessions g))"
  by (auto simp: onclose_def Let_def split: option.splits)

lemma onclose_nextServer [simp]: "nextServer (onclose t srv g) = nextServer g"
  by (simp add: onclose_def Let_def split: option.splits)

lemma consistent_onclose: "consistent g \<Longrightarrow> consistent (onclose t srv g)"
  using onclose_sessions[of t srv g]
  by (auto simp: consistent_registryOk registryOk_delete)


lemma consistent_fields:
  "sessions g' = sessions g \<Longrightarrow> nextServer g' = nextServer g \<Longrightarrow> consistent g' = consistent g"
  by (simp add: consistent_def)

lemma consistent_lookup:
  assumes "consistent g" and "map_of (sessions g) k = Some s"
  shows "sessionId (transport s) = Some k" and "server s < nextServer g"
    and "k \<notin> set objectPrototypeNames"
  using assms by (auto simp: consistent_registryOk registryOk_def)

lemma getSession_Own:
  assumes "getSession g req = Own s"
  obtains k where "mcpSessionId req = Some k" and "k \<noteq> []" and "map_of (sessions g) k = Some s"
  using assms
  by (auto simp: getSession_def sessionsAt_def split: option.splits if_splits)

lemma getSession_live:
  assumes "mcpSessionId req = Some k" and "k \<noteq> []" and "map_of (sessions g) k = Some s"
  shows "getSession g req = Own s"
  using assms by (simp add: getSession_def sessionsAt_def)

text \<open>Forwarding to a transport that has its session id only removes sessions.\<close>

lemma handleRequest_initialised:
  assumes "sessionId t = Some k"
  shows "handleRequest t srv h g = (t, if signalsClose h then onclose t srv g else g)"
  using assms by (simp add: handleRequest_def)

lemma consistent_handleRequest_initialised:
  assumes "consistent g" and "sessionId t = Some k"
  shows "consistent (snd (handleRequest t srv h g))"
  using assms by (simp add: handleRequest_initialised consistent_onclose)

text \<open>Forwarding the initialize request to the transport of a new server.\<close>

lemma consistent_handleRequest_fresh:
  assumes "consistent g"
  shows "consistent (snd (handleRequest \<lparr>sessionId = None\<rparr> (nextServer g) h
            (g\<lparr>nextServer := Suc (nextServer g)\<rparr>)))"
proof -
  let ?g0 = "g\<lparr>nextServer := Suc (nextServer g)\<rparr>"
  have g0: "consistent ?g0"
    using assms by (simp add: consistent_registryOk registryOk_Suc)
  show ?thesis
  proof (cases "minted h")
    case None
    then show ?thesis
      using g0 by (simp add: handleRequest_def consistent_onclose)
  next
    case (Some n)
    let ?t = "\<lparr>sessionId = Some (randomUUID n)\<rparr>"
    have "consistent (registerSession ?t (nextServer g) (randomUUID n) ?g0)"
      using assms registryOk_update[of "sessions g" "nextServer g" ?t "randomUUID n"]
      by (simp add: consistent_registryOk registerSession_def randomUUID_not_inherited)
    then show ?thesis
      using Some by (simp add: handleRequest_def consistent_onclose)
  qed
qed

lemma consistent_handlePost:
  assumes "consistent g"
  shows "consistent (snd (handlePost ex req h g))"
proof (cases "getSession g req")
  case Undefined
  then show ?thesis
    using assms consistent_handleRequest_fresh[OF assms, of h]
    by (simp add: handlePost_def Let_def)
next
  case Inherited
  then show ?thesis
    using assms by (simp add: handlePost_def Let_def)
next
  case (Own s)
  then obtain k where "map_of (sessions g) k = Some s"
    by (rule getSession_Own)
  then have "sessionId (transport s) = Some k"
    using assms consistent_lookup by blast
  then show ?thesis
    using Own assms consistent_handleRequest_initialised[OF assms, of "transport s" k "server s" h]
    by (simp add: handlePost_def Let_def)
qed

lemma consistent_handleGetOrDelete:
  assumes "consistent g"
  shows "consistent (snd (handleGetOrDelete m req h g))"
proof (cases "getSession g req")
  case Undefined
  then show ?thesis
    using assms by (simp add: handleGetOrDelete_def)
next
  case Inherited
  then show ?thesis
    using assms by (simp add: handleGetOrDelete_def)
next
  case (Own s)
  then obtain k where "map_of (sessions g) k = Some s"
    by (rule getSession_Own)
  then have k: "sessionId (transport s) = Some k"
    using assms consistent_lookup by blast
  let ?g1 = "if signalsClose h then onclose (transport s) (server s) g else g"
  have g1: "consistent ?g1"
    using assms by (simp add: consistent_onclose)
  have td: "consistent (g1\<lparr>resources := r, sessions := AList.delete k (sessions g1), sessionByServer := b\<rparr>)"
    if "consistent g1" for g1 r b
    using that by (simp add: consistent_registryOk registryOk_delete)
  show ?thesis
  proof (cases "completion h")
    case Returned
    then show ?thesis
      using Own k g1 td[OF g1]
      by (simp add: handleGetOrDelete_def handleRequest_initialised)
  next
    case (Threw sent)
    then show ?thesis
      using Own k g1
      by (simp add: handleGetOrDelete_def handleRequest_initialised)
  qed
qed

lemma consistent_handle:
  assumes "consistent g"
  shows "consistent (snd (handle ex cfg now req h g))"
  using assms consistent_handlePost[OF assms, of ex] consistent_handleGetOrDelete[OF assms]
  by (simp add: handle_def split: requestUrl.splits)

lemma consistent_step:
  assumes "consistent g"
  shows "consistent (step ex cfg ev g)"
proof (cases ev)
  case (Request now req h)
  then show ?thesis using assms by (simp add: consistent_handle)
next
  case (TransportClosed t srv)
  then show ?thesis using assms by (simp add: consistent_onclose)
next
  case (ResourceRegistered now srv rid path mime nm)
  then show ?thesis using assms by (simp add: consistent_def)
qed

lemma consistent_run: "consistent g \<Longrightarrow> consistent (run ex cfg evs g)"
  by (induction evs arbitrary: g) (simp_all add: consistent_step)

lemma consistent_initial: "consistent (initialGateway ttl)"
  by (simp add: consistent_def initialGateway_def)

lemma consistent_reachable: "consistent (run ex cfg evs (initialGateway ttl))"
  by (simp add: consistent_run consistent_initial)

section \<open>A session id after DELETE\<close>

lemma onclose_absent:
  "map_of (sessions g) k = None \<Longrightarrow> map_of (sessions (onclose t srv g)) k = None"
  using onclose_sessions[of t srv g] by (auto simp: delete_conv)

lemma handleRequest_absent:
  assumes "map_of (sessions g) k = None" and "map_option randomUUID (minted h) \<noteq> Some k"
  shows "map_of (sessions (snd (handleRequest t srv h g))) k = None"
  using assms
  by (auto simp: handleRequest_def registerSession_def update_conv onclose_absent
      split: option.splits)

lemma handlePost_absent:
  assumes "map_of (sessions g) k = None" and "map_option randomUUID (minted h) \<noteq> Some k"
  shows "map_of (sessions (snd (handlePost ex req h g))) k = None"
  using assms handleRequest_absent[of "g\<lparr>nextServer := Suc (nextServer g)\<rparr>" k h]
    handleRequest_absent[of g k h]
  by (simp add: handlePost_def Let_def split: option.splits property.splits)

lemma handleGetOrDelete_absent:
  assumes "map_of (sessions g) k = None" and "map_option randomUUID (minted h) \<noteq> Some k"
  shows "map_of (sessions (snd (handleGetOrDelete m req h g))) k = None"
proof (cases "getSession g req")
  case Undefined
  then show ?thesis using assms by (simp add: handleGetOrDelete_def)
next
  case Inherited
  then show ?thesis using assms by (simp add: handleGetOrDelete_def)
next
  case (Own s)
  obtain t1 g1 where hr: "handleRequest (transport s) (server s) h g = (t1, g1)"
    by (cases "handleRequest (transport s) (server s) h g")
  have "map_of (sessions g1) k = None"
    using handleRequest_absent[OF assms, of "transport s" "server s"] hr by simp
  then show ?thesis
    using Own hr
    by (simp add: handleGetOrDelete_def delete_conv split: completion.splits option.splits)
qed

lemma handle_absent:
  assumes "map_of (sessions g) k = None" and "map_option randomUUID (minted h) \<noteq> Some k"
  shows "map_of (sessions (snd (handle ex cfg now req h g))) k = None"
  using assms handlePost_absent[OF assms, of ex] handleGetOrDelete_absent[OF assms]
  by (simp add: handle_def split: requestUrl.splits)

lemma step_absent:
  assumes "map_of (sessions g) k = None" and "mints ev \<noteq> Some k"
  shows "map_of (sessions (step ex cfg ev g)) k = None"
  using assms by (cases ev) (simp_all add: handle_absent onclose_absent)

lemma run_absent:
  assumes "map_of (sessions g) k = None" and "\<forall>ev \<in> set evs. mints ev \<noteq> Some k"
  shows "map_of (sessions (run ex cfg evs g)) k = None"
  using assms by (induction evs arbitrary: g) (simp_all add: step_absent)

lemma delete_removes:
  assumes "consistent g" and "map_of (sessions g) k = Some s" and "k \<noteq> []"
    and "url req = Pathname (normalizedPath cfg)" and "reqMethod req = Some ''DELETE''"
    and "mcpSessionId req = Some k" and "completion h = Returned"
  shows "map_of (sessions (snd (handle ex cfg now req h g))) k = None"
proof -
  have sid: "sessionId (transport s) = Some k"
    using assms(1,2) by (rule consistent_lookup)
  have gs: "getSession g req = Own s"
    using assms by (simp add: getSession_live)
  show ?thesis
    using assms sid gs
    by (simp add: handle_def protocol_path_not_download methodOf_def handleGetOrDelete_def
        handleRequest_initialised delete_conv)
qed

lemma get_unknown:
  assumes "map_of (sessions g) k = None" and "k \<notin> set objectPrototypeNames"
    and "url req = Pathname (normalizedPath cfg)" and "methodOf req = ''GET''"
    and "mcpSessionId req = Some k"
  shows "handle ex cfg now req h g = (PlainText 400 ''Invalid or missing session ID'', g)"
  using assms
  by (simp add: handle_def protocol_path_not_download handleGetOrDelete_def getSession_def
      sessionsAt_def)

text \<open>
  C2. Let \<open>k\<close> be the id of a session that is live in a state the gateway has reached, and
  let a DELETE on the protocol path carry \<open>k\<close> and run to its end (the forwarded call
  returns). Then, whatever happens afterwards, as long as no transport mints \<open>k\<close> again
  (ids are not reused), \<open>k\<close> maps to no session, and a GET on the protocol path carrying
  \<open>k\<close> is answered 400 with the body \<open>Invalid or missing session ID\<close>.
\<close>

theorem delete_forgets_session:
  assumes "g = run ex cfg evs (initialGateway ttl)"
    and "map_of (sessions g) k = Some s" and "k \<noteq> []"
    and "url del = Pathname (normalizedPath cfg)" and "reqMethod del = Some ''DELETE''"
    and "mcpSessionId del = Some k" and "completion h = Returned"
    and "\<forall>ev \<in> set later. mints ev \<noteq> Some k"
    and "url get = Pathname (normalizedPath cfg)" and "methodOf get = ''GET''"
    and "mcpSessionId get = Some k"
  shows "let g' = run ex cfg later (snd (handle ex cfg now del h g)) in
           map_of (sessions g') k = None \<and>
           handle ex cfg now' get h' g' = (PlainText 400 ''Invalid or missing session ID'', g')"
proof -
  have c: "consistent g"
    using assms(1) by (simp add: consistent_reachable)
  then have own: "k \<notin> set objectPrototypeNames"
    using assms(2) by (rule consistent_lookup)
  have "map_of (sessions (snd (handle ex cfg now del h g))) k = None"
    using c assms by (intro delete_removes) auto
  then have "map_of (sessions (run ex cfg later (snd (handle ex cfg now del h g)))) k = None"
    using assms(8) by (rule run_absent)
  then show ?thesis
    using own assms(9-11) by (simp add: get_unknown)
qed

theorem delete_forgets_session_witness:
  "map_of (sessions sampleGateway) sessionOne = Some \<lparr>transport = \<lparr>sessionId = Some sessionOne\<rparr>, server = 0\<rparr> \<and>
   fst (handle sampleExternals sampleConfig 9 (sampleRequest ''GET'' ''/mcp'' (Some sessionOne) [])
     (returns None False)
     (run sampleExternals sampleConfig
        [Request 8 (sampleRequest ''POST'' ''/mcp'' None ''init'') (returns (Some 3) False)]
        (snd (handle sampleExternals sampleConfig 7
           (sampleRequest ''DELETE'' ''/mcp'' (Some sessionOne) []) (returns None True) sampleGateway))))
     = PlainText 400 ''Invalid or missing session ID''"
  using delete_forgets_session[of sampleGateway sampleExternals sampleConfig sampleEvents 1 "sessionOne"
      "\<lparr>transport = \<lparr>sessionId = Some sessionOne\<rparr>, server = 0\<rparr>"
      "sampleRequest ''DELETE'' ''/mcp'' (Some sessionOne) []" "returns None True"
      "[Request 8 (sampleRequest ''POST'' ''/mcp'' None ''init'') (returns (Some 3) False)]"
      "sampleRequest ''GET'' ''/mcp'' (Some sessionOne) []" 7 9 "returns None False"]
    sample_run
  by (simp add: sampleGateway_def sampleRequest_def sampleConfig_def returns_def methodOf_def Let_def
      randomUUID_sample sessionOne_def sessionTwo_def)

section \<open>The download responder\<close>

lemma handle_download:
  assumes "url req = Pathname p" and "startsWith p (downloadPrefix cfg)"
  shows "handle ex cfg now req h g = (serveDownload ex cfg now p g, g)"
  using assms by (simp add: handle_def)

lemma serveDownload_short:
  assumes "length (split CHR ''/'' (drop (length (downloadPrefix cfg)) p)) < 2"
  shows "serveDownload ex cfg now p g = PlainText 400 ''Invalid download path''"
  using assms by (auto simp: serveDownload_def split: list.splits)

lemma serveDownload_unknown_session:
  assumes "split CHR ''/'' (drop (length (downloadPrefix cfg)) p) = sid # rid # rest"
    and "map_of (sessions g) sid = None"
  shows "serveDownload ex cfg now p g = PlainText 404 ''Not Found''"
  using assms by (simp add: serveDownload_def sessionsAt_def)

lemma serveDownload_no_resource:
  assumes "split CHR ''/'' (drop (length (downloadPrefix cfg)) p) = sid # rid # rest"
    and "map_of (sessions g) sid = Some s"
    and "getFileResourceById (resources g) now (server s) rid = None"
  shows "serveDownload ex cfg now p g = PlainText 404 ''Not Found''"
  using assms by (simp add: serveDownload_def sessionsAt_def)

lemma serveDownload_found:
  assumes "split CHR ''/'' (drop (length (downloadPrefix cfg)) p) = sid # rid # rest"
    and "map_of (sessions g) sid = Some s"
    and "getFileResourceById (resources g) now (server s) rid = Some r"
  shows "serveDownload ex cfg now p g =
           (case stat ex (filePath r) of
              None \<Rightarrow> PlainText 500 ''Failed to serve file''
            | Some fileSize \<Rightarrow>
                FileDownload (case mimeType r of None \<Rightarrow> ''application/octet-stream'' | Some m \<Rightarrow> m)
                  fileSize (basename ex (name r)))"
  using assms by (simp add: serveDownload_def sessionsAt_def)

lemma serveDownload_same_segments:
  assumes "split CHR ''/'' (drop (length (downloadPrefix cfg)) p) = sid # rid # rest"
    and "split CHR ''/'' (drop (length (downloadPrefix cfg)) p') = sid # rid # rest'"
  shows "serveDownload ex cfg now p' g = serveDownload ex cfg now p g"
  using assms by (simp add: serveDownload_def)

lemma getFileResourceById_absent:
  assumes "records rm rid = None \<or> (\<exists>r. records rm rid = Some r \<and> (owner r \<noteq> srv \<or> expiry r \<le> now))"
  shows "getFileResourceById rm now srv rid = None"
  using assms by (auto simp: getFileResourceById_def)

lemma getFileResourceById_registered:
  assumes "enabled rm"
  shows "getFileResourceById (registerResource t0 srv rid path mime nm rm) now srv rid =
           (if now < t0 + ttlSeconds rm then
              Some \<lparr>owner = srv, filePath = path, mimeType = mime, name = nm, expiry = t0 + ttlSeconds rm\<rparr>
            else None)"
  using assms by (simp add: getFileResourceById_def registerResource_def)

text \<open>
  C3. For a request under the download prefix: a remainder of fewer than two segments is
  answered 400; otherwise the answer depends on the first two segments only, so that any
  other pathname with the same two segments (whatever follows them) gets the same answer;
  a first segment that is not the id of a session is answered 404; and so is a second
  segment whose resource is unknown, owned by another server, or past its expiry. A
  resource registered with a time to live of 1 is answered 404 two units later, and is not
  answered 404 at the moment of its registration.
\<close>

theorem download_responder_steps:
  assumes "url req = Pathname p" and "startsWith p (downloadPrefix cfg)"
    and "parts = split CHR ''/'' (drop (length (downloadPrefix cfg)) p)"
  shows "(length parts < 2 \<longrightarrow>
            handle ex cfg now req h g = (PlainText 400 ''Invalid download path'', g)) \<and>
         (\<forall>sid rid rest. parts = sid # rid # rest \<longrightarrow>
            (\<forall>req' p' rest' h'. url req' = Pathname p' \<and> startsWith p' (downloadPrefix cfg) \<and>
                 split CHR ''/'' (drop (length (downloadPrefix cfg)) p') = sid # rid # rest' \<longrightarrow>
                 handle ex cfg now req' h' g = handle ex cfg now req h g) \<and>
            (map_of (sessions g) sid = None \<longrightarrow>
               handle ex cfg now req h g = (PlainText 404 ''Not Found'', g)) \<and>
            (\<forall>s. map_of (sessions g) sid = Some s \<and>
                 (records (resources g) rid = None \<or>
                  (\<exists>r. records (resources g) rid = Some r \<and>
                       (owner r \<noteq> server s \<or> expiry r \<le> now))) \<longrightarrow>
               handle ex cfg now req h g = (PlainText 404 ''Not Found'', g)) \<and>
            (\<forall>s t0 path mime nm. map_of (sessions g) sid = Some s \<and> enabled (resources g) \<and>
                 ttlSeconds (resources g) = 1 \<longrightarrow>
               fst (handle ex cfg (t0 + 2) req h
                      (step ex cfg (ResourceRegistered t0 (server s) rid path mime nm) g)) =
                 PlainText 404 ''Not Found'' \<and>
               fst (handle ex cfg t0 req h
                      (step ex cfg (ResourceRegistered t0 (server s) rid path mime nm) g)) \<noteq>
                 PlainText 404 ''Not Found''))"
proof (intro conjI allI impI)
  assume "length parts < 2"
  then show "handle ex cfg now req h g = (PlainText 400 ''Invalid download path'', g)"
    using assms by (simp add: handle_download serveDownload_short)
next
  fix sid rid rest p' rest' h' and req' :: request
  assume "parts = sid # rid # rest"
    and "url req' = Pathname p' \<and> startsWith p' (downloadPrefix cfg) \<and>
         split CHR ''/'' (drop (length (downloadPrefix cfg)) p') = sid # rid # rest'"
  then show "handle ex cfg now req' h' g = handle ex cfg now req h g"
    using assms serveDownload_same_segments[of cfg p sid rid rest p' rest' ex now g]
    by (simp add: handle_download)
next
  fix sid rid rest
  assume "parts = sid # rid # rest" and "map_of (sessions g) sid = None"
  then show "handle ex cfg now req h g = (PlainText 404 ''Not Found'', g)"
    using assms serveDownload_unknown_session[of cfg p sid rid rest g ex now]
    by (simp add: handle_download)
next
  fix sid rid rest s
  assume "parts = sid # rid # rest"
    and "map_of (sessions g) sid = Some s \<and>
         (records (resources g) rid = None \<or>
          (\<exists>r. records (resources g) rid = Some r \<and> (owner r \<noteq> server s \<or> expiry r \<le> now)))"
  then show "handle ex cfg now req h g = (PlainText 404 ''Not Found'', g)"
    using assms serveDownload_no_resource[of cfg p sid rid rest g s now ex]
      getFileResourceById_absent[of "resources g" rid "server s" now]
    by (simp add: handle_download)
next
  fix sid rid rest s t0 path mime nm
  assume parts: "parts = sid # rid # rest"
    and s: "map_of (sessions g) sid = Some s \<and> enabled (resources g) \<and> ttlSeconds (resources g) = 1"
  let ?g1 = "step ex cfg (ResourceRegistered t0 (server s) rid path mime nm) g"
  have sess: "map_of (sessions ?g1) sid = Some s"
    using s by simp
  have "getFileResourceById (resources ?g1) (t0 + 2) (server s) rid = None"
    using s by (simp add: getFileResourceById_registered)
  then show "fst (handle ex cfg (t0 + 2) req h ?g1) = PlainText 404 ''Not Found''"
    using assms parts sess serveDownload_no_resource[of cfg p sid rid rest ?g1 s "t0 + 2" ex]
    by (simp add: handle_download)
  have "\<exists>r. getFileResourceById (resources ?g1) t0 (server s) rid = Some r"
    using s by (simp add: getFileResourceById_registered)
  then obtain r where "getFileResourceById (resources ?g1) t0 (server s) rid = Some r" ..
  then have "serveDownload ex cfg t0 p ?g1 \<noteq> PlainText 404 ''Not Found''"
    using assms parts sess serveDownload_found[of cfg p sid rid rest ?g1 s t0 r ex]
    by (simp split: option.splits)
  then show "fst (handle ex cfg t0 req h ?g1) \<noteq> PlainText 404 ''Not Found''"
    using assms by (simp add: handle_download)
qed

theorem download_responder_steps_witness:
  "handle sampleExternals sampleConfig 5
     (sampleRequest ''GET'' (''/mcp/resources/'' @ sessionOne @ ''/r1/shot.png'') None []) (returns None False) sampleGateway =
     (FileDownload ''image/png'' 3 ''shot.png'', sampleGateway) \<and>
   handle sampleExternals sampleConfig 5
     (sampleRequest ''GET'' (''/mcp/resources/'' @ sessionOne @ ''/r1/other.bin'') None []) (returns None False) sampleGateway =
     (FileDownload ''image/png'' 3 ''shot.png'', sampleGateway) \<and>
   handle sampleExternals sampleConfig 7
     (sampleRequest ''GET'' (''/mcp/resources/'' @ sessionOne @ ''/r1/shot.png'') None []) (returns None False) sampleGateway =
     (PlainText 404 ''Not Found'', sampleGateway) \<and>
   handle sampleExternals sampleConfig 5
     (sampleRequest ''GET'' (''/mcp/resources/'' @ sessionOne) None []) (returns None False) sampleGateway =
     (PlainText 400 ''Invalid download path'', sampleGateway) \<and>
   fst (handle sampleExternals sampleConfig 12
     (sampleRequest ''GET'' (''/mcp/resources/'' @ sessionOne @ ''/r2/log.txt'') None []) (returns None False)
     (step sampleExternals sampleConfig
        (ResourceRegistered 10 0 ''r2'' ''/data/log.txt'' None ''log.txt'') sampleGateway)) =
     PlainText 404 ''Not Found''"
  using download_responder_steps[of "sampleRequest ''GET'' (''/mcp/resources/'' @ sessionOne @ ''/r1/shot.png'') None []"
      "(''/mcp/resources/'' @ sessionOne @ ''/r1/shot.png'')" sampleConfig "[sessionOne, ''r1'', ''shot.png'']"
      sampleExternals 7 "returns None False" sampleGateway]
    download_responder_steps[of "sampleRequest ''GET'' (''/mcp/resources/'' @ sessionOne) None []"
      "(''/mcp/resources/'' @ sessionOne)" sampleConfig "[sessionOne]"
      sampleExternals 5 "returns None False" sampleGateway]
    download_responder_steps[of "sampleRequest ''GET'' (''/mcp/resources/'' @ sessionOne @ ''/r2/log.txt'') None []"
      "(''/mcp/resources/'' @ sessionOne @ ''/r2/log.txt'')" sampleConfig "[sessionOne, ''r2'', ''log.txt'']"
      sampleExternals 12 "returns None False" sampleGateway]
  by (simp add: sampleRequest_def sampleConfig_def sampleExternals_def sampleGateway_def
      startsWith_def downloadPrefix_def handle_def serveDownload_def getFileResourceById_def
      registerResource_def sessionsAt_def objectPrototypeNames_def sessionOne_def sessionTwo_def)

text \<open>
  C5. In every state the gateway has reached, if a resource is owned by the server of
  session \<open>a\<close> and \<open>b\<close> is another session, a download whose path names \<open>b\<close> and that
  resource is answered 404, whatever the file name, the method and the clock are. More
  generally, whenever the download branch serves a file, the resource belongs to the server
  of the session named in the path and has not expired.
\<close>

theorem download_scoped_to_owner:
  assumes "g = run ex cfg evs (initialGateway ttl)"
    and "map_of (sessions g) a = Some sa" and "map_of (sessions g) b = Some sb" and "a \<noteq> b"
    and "records (resources g) rid = Some r" and "owner r = server sa"
    and "url req = Pathname p" and "startsWith p (downloadPrefix cfg)"
    and "split CHR ''/'' (drop (length (downloadPrefix cfg)) p) = b # rid # rest"
  shows "handle ex cfg now req h g = (PlainText 404 ''Not Found'', g) \<and>
         (\<forall>req' p' sid rid' rest' s' m f n.
            url req' = Pathname p' \<and> startsWith p' (downloadPrefix cfg) \<and>
            split CHR ''/'' (drop (length (downloadPrefix cfg)) p') = sid # rid' # rest' \<and>
            map_of (sessions g) sid = Some s' \<and>
            fst (handle ex cfg now req' h g) = FileDownload m f n \<longrightarrow>
            (\<exists>r'. records (resources g) rid' = Some r' \<and> owner r' = server s' \<and> now < expiry r'))"
proof (intro conjI allI impI)
  have "consistent g"
    using assms(1) by (simp add: consistent_reachable)
  then have "server sb \<noteq> server sa"
    using assms(2-4) by (auto simp: consistent_registryOk registryOk_def)
  then have "getFileResourceById (resources g) now (server sb) rid = None"
    using assms(5,6) by (simp add: getFileResourceById_def)
  then show "handle ex cfg now req h g = (PlainText 404 ''Not Found'', g)"
    using assms(3,7-9) serveDownload_no_resource[of cfg p b rid rest g sb now ex]
    by (simp add: handle_download)
next
  fix p' sid rid' rest' s' m f n and req' :: request
  assume a: "url req' = Pathname p' \<and> startsWith p' (downloadPrefix cfg) \<and>
            split CHR ''/'' (drop (length (downloadPrefix cfg)) p') = sid # rid' # rest' \<and>
            map_of (sessions g) sid = Some s' \<and>
            fst (handle ex cfg now req' h g) = FileDownload m f n"
  then have "serveDownload ex cfg now p' g = FileDownload m f n"
    using handle_download[of req' p' cfg ex now h g] by simp
  then obtain r' where "getFileResourceById (resources g) now (server s') rid' = Some r'"
    using a by (auto simp: serveDownload_def sessionsAt_def split: option.splits)
  then show "\<exists>r'. records (resources g) rid' = Some r' \<and> owner r' = server s' \<and> now < expiry r'"
    by (auto simp: getFileResourceById_def split: if_splits option.splits)
qed

theorem download_scoped_to_owner_witness:
  "map_of (sessions sampleGateway) sessionOne = Some \<lparr>transport = \<lparr>sessionId = Some sessionOne\<rparr>, server = 0\<rparr> \<and>
   map_of (sessions sampleGateway) sessionTwo = Some \<lparr>transport = \<lparr>sessionId = Some sessionTwo\<rparr>, server = 1\<rparr> \<and>
   handle sampleExternals sampleConfig 5
     (sampleRequest ''GET'' (''/mcp/resources/'' @ sessionTwo @ ''/r1/shot.png'') None []) (returns None False) sampleGateway =
     (PlainText 404 ''Not Found'', sampleGateway)"
  using download_scoped_to_owner[of sampleGateway sampleExternals sampleConfig sampleEvents 1
      "sessionOne" "\<lparr>transport = \<lparr>sessionId = Some sessionOne\<rparr>, server = 0\<rparr>"
      "sessionTwo" "\<lparr>transport = \<lparr>sessionId = Some sessionTwo\<rparr>, server = 1\<rparr>"
      "''r1''" "\<lparr>owner = 0, filePath = ''/data/shot.png'', mimeType = Some ''image/png'',
                 name = ''shot.png'', expiry = 6\<rparr>"
      "sampleRequest ''GET'' (''/mcp/resources/'' @ sessionTwo @ ''/r1/shot.png'') None []"
      "(''/mcp/resources/'' @ sessionTwo @ ''/r1/shot.png'')" "[''shot.png'']" 5 "returns None False"]
    sample_run
  by (simp add: sampleGateway_def sampleRequest_def sampleConfig_def startsWith_def downloadPrefix_def
      sessionOne_def sessionTwo_def)

section \<open>Teardown\<close>

lemma clearResourcesForServer_idem:
  "clearResourcesForServer srv (clearResourcesForServer srv rm) = clearResourcesForServer srv rm"
  by (auto simp: clearResourcesForServer_def fun_eq_iff split: option.splits)

lemma clearResourcesForServer_none:
  "records (clearResourcesForServer srv rm) rid = Some r \<Longrightarrow> owner r \<noteq> srv"
  by (auto simp: clearResourcesForServer_def split: option.splits if_splits)

lemma delete_absent: "map_of ss k = None \<Longrightarrow> AList.delete k ss = ss"
  by (simp add: map_of_eq_None_iff)

lemma onclose_eq:
  assumes "sessionId t = Some k" and "k \<noteq> []"
  shows "onclose t srv g =
           g\<lparr>sessions := AList.delete k (sessions g),
             closedServers := insert srv (closedServers g),
             resources := clearResourcesForServer srv (resources g),
             sessionByServer := (sessionByServer g)(srv := None)\<rparr>"
  using assms by (auto simp: onclose_def Let_def delete_absent sessionsAt_def split: option.splits)

lemma onclose_idem: "onclose t srv (onclose t srv g) = onclose t srv g"
proof (cases "sessionId t")
  case None
  then show ?thesis
    by (simp add: onclose_def Let_def clearResourcesForServer_idem)
next
  case (Some k)
  show ?thesis
  proof (cases "k = []")
    case True
    then show ?thesis
      using Some by (simp add: onclose_def Let_def clearResourcesForServer_idem)
  next
    case False
    then show ?thesis
      using Some by (simp add: onclose_eq clearResourcesForServer_idem delete_idem)
  qed
qed

text \<open>
  C7, at the input where the code departs from it. In the sample gateway a DELETE carries
  the id of the first session and is forwarded to a transport that returns without running
  \<^verbatim>\<open>onclose\<close>. Afterwards the session is gone from the registry, its resource is cleared and
  its server has no binding, but \<^verbatim>\<open>close()\<close> has not been called on the server, whereas the
  closure callback on the same state does call it.
\<close>

theorem delete_leaves_server_open:
  "getSession sampleGateway (sampleRequest ''DELETE'' ''/mcp'' (Some sessionOne) []) =
     Own \<lparr>transport = \<lparr>sessionId = Some sessionOne\<rparr>, server = 0\<rparr> \<and>
   fst (handle sampleExternals sampleConfig 7
          (sampleRequest ''DELETE'' ''/mcp'' (Some sessionOne) []) (returns None False) sampleGateway) =
     FromTransport \<and>
   (let g' = snd (handle sampleExternals sampleConfig 7
                    (sampleRequest ''DELETE'' ''/mcp'' (Some sessionOne) []) (returns None False)
                    sampleGateway)
    in map_of (sessions g') sessionOne = None \<and> records (resources g') ''r1'' = None \<and>
       sessionByServer g' 0 = None \<and> 0 \<notin> closedServers g') \<and>
   0 \<in> closedServers (onclose \<lparr>sessionId = Some sessionOne\<rparr> 0 sampleGateway)"
  by (simp add: sampleGateway_def sampleRequest_def sampleConfig_def returns_def getSession_def
      sessionsAt_def handle_def handleGetOrDelete_def handleRequest_def methodOf_def
      startsWith_def downloadPrefix_def onclose_def clearResourcesForServer_def Let_def
      sessionOne_def sessionTwo_def)

section \<open>The drain\<close>

text \<open>One turn of the loop, as a function of the state.\<close>

lemma drain_Cons:
  "drain cl (k # ks) g =
     (let g1 = (case sessionsAt g k of
                  Own s \<Rightarrow>
                    let g0 = g\<lparr>closedServers := insert (server s) (closedServers g)\<rparr>
                    in if firesClose (cl (server s)) then onclose (transport s) (server s) g0 else g0
                | _ \<Rightarrow> g);
          g2 = g1\<lparr>sessions := AList.delete k (sessions g1)\<rparr>
      in ((if (case sessionsAt g k of Own s \<Rightarrow> rejects (cl (server s)) | _ \<Rightarrow> True)
           then [k] else []) @ fst (drain cl ks g2),
          snd (drain cl ks g2)))"
  by (simp add: Let_def split: property.splits prod.splits)

lemma onclose_closedServers: "closedServers (onclose t srv g) = insert srv (closedServers g)"
  by (auto simp: onclose_def Let_def split: option.splits)

lemma onclose_other_key:
  assumes "sessionId t = Some k" and "k' \<noteq> k"
  shows "map_of (sessions (onclose t srv g)) k' = map_of (sessions g) k'"
  using assms by (auto simp: onclose_def Let_def delete_conv)

lemma drain_closedServers: "closedServers g \<subseteq> closedServers (snd (drain cl ks g))"
proof (induction ks arbitrary: g)
  case Nil
  then show ?case by simp
next
  case (Cons k ks)
  show ?case
    unfolding drain_Cons Let_def snd_conv
    by (rule subset_trans[OF _ Cons.IH])
      (auto simp: onclose_closedServers split: property.splits)
qed

lemma drain_absent:
  "map_of (sessions g) k = None \<Longrightarrow> map_of (sessions (snd (drain cl ks g))) k = None"
proof (induction ks arbitrary: g)
  case Nil
  then show ?case by simp
next
  case (Cons k' ks)
  show ?case
    unfolding drain_Cons Let_def snd_conv
    by (rule Cons.IH) (use Cons.prems onclose_absent in \<open>auto simp: delete_conv split: property.splits\<close>)
qed

lemma drain_removes:
  "k \<in> set ks \<Longrightarrow> map_of (sessions (snd (drain cl ks g))) k = None"
proof (induction ks arbitrary: g)
  case Nil
  then show ?case by simp
next
  case (Cons k' ks)
  show ?case
  proof (cases "k = k'")
    case True
    show ?thesis
      unfolding drain_Cons Let_def snd_conv True
      by (rule drain_absent) (simp add: delete_conv)
  next
    case False
    then show ?thesis
      unfolding drain_Cons Let_def snd_conv using Cons by simp
  qed
qed

lemma no_keys_Nil:
  assumes "\<And>k. map_of ss k = None"
  shows "ss = []"
proof (cases ss)
  case Nil
  then show ?thesis .
next
  case (Cons x xs)
  then have "map_of ss (fst x) = Some (snd x)"
    by simp
  then show ?thesis
    using assms by simp
qed

lemma drain_all: "sessions (snd (drain cl (map fst (sessions g)) g)) = []"
proof (rule no_keys_Nil)
  fix k
  show "map_of (sessions (snd (drain cl (map fst (sessions g)) g))) k = None"
  proof (cases "k \<in> set (map fst (sessions g))")
    case True
    then show ?thesis by (rule drain_removes)
  next
    case False
    then have "map_of (sessions g) k = None"
      by (simp add: map_of_eq_None_iff)
    then show ?thesis by (rule drain_absent)
  qed
qed

lemma consistent_closedServers [simp]:
  "consistent (g\<lparr>closedServers := c\<rparr>) = consistent g"
  by (simp add: consistent_def)

lemma consistent_delete:
  "consistent g \<Longrightarrow> consistent (g\<lparr>sessions := AList.delete k (sessions g)\<rparr>)"
  by (simp add: consistent_registryOk registryOk_delete)

lemma drain_closes:
  assumes "consistent g" and "distinct ks" and "k \<in> set ks" and "map_of (sessions g) k = Some s"
  shows "server s \<in> closedServers (snd (drain cl ks g)) \<and>
         (rejects (cl (server s)) \<longrightarrow> k \<in> set (fst (drain cl ks g)))"
  using assms
proof (induction ks arbitrary: g)
  case Nil
  then show ?case by simp
next
  case (Cons k' ks)
  define g1 where "g1 =
    (case sessionsAt g k' of
       Own s \<Rightarrow>
         let g0 = g\<lparr>closedServers := insert (server s) (closedServers g)\<rparr>
         in if firesClose (cl (server s)) then onclose (transport s) (server s) g0 else g0
     | _ \<Rightarrow> g)"
  define g2 where "g2 = g1\<lparr>sessions := AList.delete k' (sessions g1)\<rparr>"
  have dr: "drain cl (k' # ks) g =
      ((if (case sessionsAt g k' of Own s \<Rightarrow> rejects (cl (server s)) | _ \<Rightarrow> True)
        then [k'] else []) @ fst (drain cl ks g2), snd (drain cl ks g2))"
    unfolding drain_Cons g2_def g1_def Let_def ..
  have c1: "consistent g1"
    using Cons.prems(1) by (simp add: g1_def Let_def consistent_onclose split: property.splits)
  then have c2: "consistent g2"
    unfolding g2_def by (rule consistent_delete)
  have other: "map_of (sessions g2) x = map_of (sessions g) x" if "x \<noteq> k'" for x
  proof (cases "map_of (sessions g) k'")
    case None
    then show ?thesis using that by (simp add: g2_def g1_def delete_conv sessionsAt_def)
  next
    case (Some s')
    then have "sessionId (transport s') = Some k'"
      using Cons.prems(1) consistent_lookup by blast
    then show ?thesis
      using Some that
      by (simp add: g2_def g1_def Let_def delete_conv onclose_other_key sessionsAt_def)
  qed
  show ?case
  proof (cases "k = k'")
    case True
    then have "server s \<in> closedServers g2"
      using Cons.prems(4) by (simp add: g2_def g1_def Let_def onclose_closedServers sessionsAt_def)
    then have "server s \<in> closedServers (snd (drain cl ks g2))"
      using drain_closedServers by blast
    then show ?thesis
      using True Cons.prems(4) by (simp add: dr sessionsAt_def del: drain.simps)
  next
    case False
    then have "k \<in> set ks" and "map_of (sessions g2) k = Some s" and "distinct ks"
      using Cons.prems other by auto
    then show ?thesis
      using Cons.IH[OF c2] by (simp add: dr del: drain.simps)
  qed
qed

lemma shutdown_again: "isShuttingDown p \<Longrightarrow> shutdown cl f p = p"
  by (simp add: shutdown_def)

text \<open>
  C8. Let the process not be shutting down, its gateway in a state it has reached. After
  \<^verbatim>\<open>shutdown\<close>, whichever calls of \<^verbatim>\<open>close()\<close> reject and whether or not the HTTP server's own
  \<^verbatim>\<open>close\<close> fails: the flag is set and the process has exited; no session is left in the
  registry; \<^verbatim>\<open>close()\<close> has been called on the server of every session that was live, and
  each rejection is in the error log under the session's id; and a further \<^verbatim>\<open>shutdown\<close>
  changes nothing.
\<close>

theorem shutdown_drains:
  assumes "running p = run ex cfg evs (initialGateway ttl)" and "\<not> isShuttingDown p"
  shows "let p' = shutdown cl httpCloseFails p in
           isShuttingDown p' \<and> exited p' \<and>
           sessions (running p') = [] \<and>
           (\<forall>(k, s) \<in> set (sessions (running p)).
              server s \<in> closedServers (running p') \<and>
              (rejects (cl (server s)) \<longrightarrow> ErrorClosingSession k \<in> set (errorLog p'))) \<and>
           shutdown cl' httpCloseFails' p' = p'"
proof -
  let ?g = "running p"
  let ?d = "drain cl (map fst (sessions ?g)) ?g"
  have c: "consistent ?g"
    using assms(1) by (simp add: consistent_reachable)
  then have dist: "distinct (map fst (sessions ?g))"
    by (simp add: consistent_def)
  have p': "shutdown cl httpCloseFails p =
      p\<lparr>isShuttingDown := True, running := snd ?d,
        errorLog := errorLog p @ map ErrorClosingSession (fst ?d)
                    @ (if httpCloseFails then [ErrorDuringShutdown] else []),
        exited := True\<rparr>"
    using assms(2) by (simp add: shutdown_def close_def split: prod.splits)
  have each: "server s \<in> closedServers (snd ?d) \<and>
              (rejects (cl (server s)) \<longrightarrow> k \<in> set (fst ?d))"
    if "(k, s) \<in> set (sessions ?g)" for k s
  proof -
    have "map_of (sessions ?g) k = Some s"
      using dist that by simp
    moreover have "k \<in> set (map fst (sessions ?g))"
      using that by force
    ultimately show ?thesis
      using drain_closes[OF c dist] by blast
  qed
  show ?thesis
    unfolding Let_def p'
    using each by (auto simp: drain_all shutdown_again)
qed

theorem shutdown_drains_witness:
  "(let p' = shutdown (\<lambda>srv. \<lparr>rejects = (srv = 0), firesClose = True\<rparr>) False
               \<lparr>isShuttingDown = False, running = sampleGateway, errorLog = [], exited = False\<rparr>
    in isShuttingDown p' \<and> exited p' \<and> sessions (running p') = [] \<and>
       closedServers (running p') = {0, 1} \<and> errorLog p' = [ErrorClosingSession sessionOne] \<and>
       shutdown (\<lambda>srv. \<lparr>rejects = False, firesClose = False\<rparr>) True p' = p')"
  using shutdown_drains[of "\<lparr>isShuttingDown = False, running = sampleGateway, errorLog = [], exited = False\<rparr>"
      sampleExternals sampleConfig sampleEvents 1 "\<lambda>srv. \<lparr>rejects = (srv = 0), firesClose = True\<rparr>" False
      "\<lambda>srv. \<lparr>rejects = False, firesClose = False\<rparr>" True]
    sample_run
  by (auto simp: sampleGateway_def shutdown_def close_def onclose_def Let_def
      clearResourcesForServer_def sessionsAt_def sessionOne_def sessionTwo_def)

end
